theory Spec2Isabelle
  imports
    Main
    "HOL-Library.Char_ord"
    "HOL-Library.List_Lexorder"
begin

section \<open>Dashboard.py: persistent state, configuration, catalogue and launcher\<close>

text \<open>
  A shallow embedding of \<^verbatim>\<open>Dashboard.py\<close>. Every function of the source that reads or
  writes a file, the directory tree or the terminal takes the \<open>world\<close> and, where it
  changes something, returns the new one. An exception that reaches the caller is the
  \<open>Inl\<close> of a sum; an exception the source swallows is a branch that goes on.
\<close>

subsection \<open>Python values\<close>

text \<open>
  What \<^verbatim>\<open>json.loads\<close> returns. Numbers are the integers (no claim reads a float).
  A \<^verbatim>\<open>dict\<close> keeps its keys in insertion order, so it is an association list, read
  with \<open>map_of\<close>.
\<close>

datatype json =
    JNull
  | JBool bool
  | JInt int
  | JStr string
  | JList "json list"
  | JDict "(string \<times> json) list"

type_synonym dict = "(string \<times> json) list"

datatype error =
    TypeError
  | ValueError
  | AttributeError
  | OSError
  | FileNotFoundError
  | PermissionError
  | NotADirectoryError
  | RuntimeError

text \<open>\<^verbatim>\<open>d.get(k, default)\<close>, \<^verbatim>\<open>d[k] = v\<close> and \<^verbatim>\<open>d.setdefault(k, v)\<close>.\<close>

definition dict_get :: "dict \<Rightarrow> string \<Rightarrow> json \<Rightarrow> json" where
  "dict_get d k dflt = (case map_of d k of None \<Rightarrow> dflt | Some v \<Rightarrow> v)"

fun dict_set :: "string \<Rightarrow> json \<Rightarrow> dict \<Rightarrow> dict" where
  "dict_set k v [] = [(k, v)]"
| "dict_set k v ((k', v') # d) = (if k' = k then (k, v) # d else (k', v') # dict_set k v d)"

definition setdefault :: "string \<Rightarrow> json \<Rightarrow> dict \<Rightarrow> dict" where
  "setdefault k v d = (case map_of d k of None \<Rightarrow> d @ [(k, v)] | Some _ \<Rightarrow> d)"

text \<open>The truth value of a Python object, as \<^verbatim>\<open>if x:\<close> and \<^verbatim>\<open>bool(x)\<close> take it.\<close>

fun truthy :: "json \<Rightarrow> bool" where
  "truthy JNull = False"
| "truthy (JBool b) = b"
| "truthy (JInt n) = (n \<noteq> 0)"
| "truthy (JStr s) = (s \<noteq> [])"
| "truthy (JList xs) = (xs \<noteq> [])"
| "truthy (JDict d) = (d \<noteq> [])"

subsection \<open>Strings\<close>

text \<open>
  A \<open>char\<close> is a code point below 256. \<^verbatim>\<open>str.strip()\<close> removes the characters for
  which \<^verbatim>\<open>str.isspace()\<close> holds; \<^verbatim>\<open>str.lower()\<close> maps A-Z and the Latin-1 capitals.
\<close>

definition is_space :: "char \<Rightarrow> bool" where
  "is_space c =
     (let n = (of_char c :: nat)
      in (9 \<le> n \<and> n \<le> 13) \<or> (28 \<le> n \<and> n \<le> 32) \<or> n = 133 \<or> n = 160)"

definition strip :: "string \<Rightarrow> string" where
  "strip s = rev (dropWhile is_space (rev (dropWhile is_space s)))"

definition lower_char :: "char \<Rightarrow> char" where
  "lower_char c =
     (let n = (of_char c :: nat)
      in if (65 \<le> n \<and> n \<le> 90) \<or> (192 \<le> n \<and> n \<le> 222 \<and> n \<noteq> 215)
         then char_of (n + 32) else c)"

definition lower :: "string \<Rightarrow> string" where
  "lower s = map lower_char s"

text \<open>\<^verbatim>\<open>s.startswith(t)\<close> and \<^verbatim>\<open>t in s\<close>.\<close>

fun startswith :: "string \<Rightarrow> string \<Rightarrow> bool" where
  "startswith s [] = True"
| "startswith [] (c # t) = False"
| "startswith (a # s) (c # t) = (a = c \<and> startswith s t)"

fun contains :: "string \<Rightarrow> string \<Rightarrow> bool" where
  "contains [] t = (t = [])"
| "contains (a # s) t = (startswith (a # s) t \<or> contains s t)"

text \<open>
  \<^verbatim>\<open>int(x)\<close>. A string is a decimal numeral: blanks around it, an optional sign, digits,
  single underscores between digits.
\<close>

definition digit_val :: "char \<Rightarrow> nat option" where
  "digit_val c =
     (let n = (of_char c :: nat) in if 48 \<le> n \<and> n \<le> 57 then Some (n - 48) else None)"

fun nat_of_digits :: "nat \<Rightarrow> bool \<Rightarrow> string \<Rightarrow> nat option" where
  "nat_of_digits acc after_digit [] = (if after_digit then Some acc else None)"
| "nat_of_digits acc after_digit (c # cs) =
     (if c = CHR ''_'' then (if after_digit then nat_of_digits acc False cs else None)
      else (case digit_val c of
              None \<Rightarrow> None
            | Some d \<Rightarrow> nat_of_digits (10 * acc + d) True cs))"

definition int_of_str :: "string \<Rightarrow> int option" where
  "int_of_str s =
     (case strip s of
        [] \<Rightarrow> None
      | c # cs \<Rightarrow>
          if c = CHR ''-'' then map_option (\<lambda>n. - int n) (nat_of_digits 0 False cs)
          else if c = CHR ''+'' then map_option int (nat_of_digits 0 False cs)
          else map_option int (nat_of_digits 0 False (c # cs)))"

fun py_int :: "json \<Rightarrow> error + int" where
  "py_int (JInt n) = Inr n"
| "py_int (JBool b) = Inr (if b then 1 else 0)"
| "py_int (JStr s) = (case int_of_str s of None \<Rightarrow> Inl ValueError | Some n \<Rightarrow> Inr n)"
| "py_int JNull = Inl TypeError"
| "py_int (JList xs) = Inl TypeError"
| "py_int (JDict d) = Inl TypeError"

text \<open>The slice \<^verbatim>\<open>xs[:n]\<close>: a negative \<open>n\<close> counts from the end.\<close>

definition slice_to :: "int \<Rightarrow> 'a list \<Rightarrow> 'a list" where
  "slice_to n xs = (if 0 \<le> n then take (nat n) xs else take (nat (int (length xs) + n)) xs)"

subsection \<open>The world\<close>

text \<open>
  A path is the list of its components below the root; the paths of scripts are
  absolute. \<^verbatim>\<open>Path.resolve\<close> depends on links and on the working directory, which the
  model does not hold: it is a function the world supplies. So is the normal form
  \<^verbatim>\<open>str(Path(s).expanduser().resolve())\<close> of a configured directory name, which raises
  for some strings (\<^verbatim>\<open>RuntimeError\<close> for the home of an unknown user, \<^verbatim>\<open>ValueError\<close> for
  a null character). The text of a resolved path and the path are not told apart.
\<close>

type_synonym path = "string list"

text \<open>
  A directory can be listed (\<open>Listable\<close>); refuse its listing for lack of read
  permission while the names below it can still be looked up (\<open>Denied\<close>); lack search
  permission as well, so that nothing below it can be looked up (\<open>Locked\<close>); or fail
  with an input/output error when listed (\<open>Faulty\<close>).
\<close>

datatype access = Listable | Denied | Locked | Faulty

datatype node =
    File
  | Dir access "(string \<times> node) list"

text \<open>
  What is on disk where a JSON document should be: nothing, something that cannot be read,
  text that \<^verbatim>\<open>json.loads\<close> rejects (an empty file is such a text), or a parsed value.
\<close>

datatype 'a document = Missing | Unreadable | Invalid | Parsed 'a

text \<open>
  The state document once parsed: not a JSON object, or an object in which each of the two
  keys may be absent. Its lists hold resolved script paths; other keys of the object are
  not part of the model.
\<close>

datatype stored_state =
    NotDict
  | StateDict "path list option" "path list option"

record state =
  recent :: "path list"
  favorites :: "path list"

datatype log_entry =
    RUN path "string list"
  | OPEN_EDITOR path

record world =
  config_doc :: "json document"
  config_writable :: bool
  config_write_empties :: bool
  state_doc :: "stored_state document"
  state_writable :: bool
  state_write_empties :: bool
  log_lines :: "(string \<times> log_entry) list"
  log_writable :: bool
  script_dir :: string
  normalize :: "string \<Rightarrow> error + string"
  resolve :: "path \<Rightarrow> path"
  tree :: node
  stdin :: "nat \<Rightarrow> string"
  stdin_pos :: nat
  shlex_split :: "string \<Rightarrow> string list option"
  subprocess_run :: "path \<Rightarrow> string list \<Rightarrow> error + int"

subsection \<open>Persistent state: recent and favourite scripts\<close>

definition empty_state :: state where
  "empty_state = \<lparr>recent = [], favorites = []\<rparr>"

definition load_state :: "world \<Rightarrow> state" where
  "load_state w =
     (case state_doc w of
        Missing \<Rightarrow> empty_state
      | Unreadable \<Rightarrow> empty_state
      | Invalid \<Rightarrow> empty_state
      | Parsed NotDict \<Rightarrow> empty_state
      | Parsed (StateDict r f) \<Rightarrow>
          \<lparr>recent = (case r of None \<Rightarrow> [] | Some xs \<Rightarrow> xs),
           favorites = (case f of None \<Rightarrow> [] | Some xs \<Rightarrow> xs)\<rparr>)"

text \<open>
  \<^verbatim>\<open>Path.write_text\<close> opens the file for writing, which empties it, and then writes. A
  write that fails does so at the opening, and the file is as it was, or after it, and the
  file is left without its text (\<open>state_write_empties\<close>, \<open>config_write_empties\<close>).
\<close>

definition failed_write :: "bool \<Rightarrow> 'a document \<Rightarrow> 'a document" where
  "failed_write emptied doc = (if emptied then Invalid else doc)"

text \<open>\<^verbatim>\<open>save_state\<close> swallows a failed write.\<close>

definition save_state :: "state \<Rightarrow> world \<Rightarrow> world" where
  "save_state st w =
     (if state_writable w
      then w\<lparr>state_doc := Parsed (StateDict (Some (recent st)) (Some (favorites st)))\<rparr>
      else w\<lparr>state_doc := failed_write (state_write_empties w) (state_doc w)\<rparr>)"

definition recent_limit :: "dict \<Rightarrow> error + int" where
  "recent_limit cfg = py_int (dict_get cfg ''recent_limit'' (JInt 15))"

definition add_recent :: "dict \<Rightarrow> path \<Rightarrow> world \<Rightarrow> error + world" where
  "add_recent cfg script_path w =
     (let st = load_state w;
          p = resolve w script_path;
          rs = p # filter (\<lambda>x. x \<noteq> p) (recent st)
      in case recent_limit cfg of
           Inl e \<Rightarrow> Inl e
         | Inr n \<Rightarrow> Inr (save_state (st\<lparr>recent := slice_to n rs\<rparr>) w))"





subsection \<open>Configuration\<close>

definition default_config :: "string \<Rightarrow> dict" where
  "default_config base_dir =
     [(''app_name'', JStr ''Dashboard de Proyectos''),
      (''base_dir'', JStr base_dir),
      (''units'', JDict [(''1'', JStr ''Unidad 1''), (''2'', JStr ''Unidad 2'')]),
      (''show_hidden_folders'', JBool False),
      (''preferred_editor'', JStr ''code -n''),
      (''log_file'', JStr ''dashboard.log''),
      (''confirm_before_run'', JBool True),
      (''code_preview_lines'', JInt 200),
      (''ignore_dirs'',
         JList [JStr ''.venv'', JStr ''venv'', JStr ''__pycache__'', JStr ''.git'',
                JStr ''.pytest_cache'', JStr ''.mypy_cache'', JStr ''.idea'', JStr ''.vscode'']),
      (''recent_limit'', JInt 15),
      (''favorites_enabled'', JBool True),
      (''ask_args_before_run'', JBool True),
      (''open_unit_folder_shortcut'', JBool True)]"

text \<open>\<^verbatim>\<open>config_path.write_text(json.dumps(cfg, ...))\<close>: it raises when the file cannot be written.\<close>

definition write_config :: "dict \<Rightarrow> world \<Rightarrow> error + world" where
  "write_config cfg w =
     (if config_writable w then Inr (w\<lparr>config_doc := Parsed (JDict cfg)\<rparr>) else Inl OSError)"

text \<open>
  Lines 79-81 and 86-88 of the source, the same three statements: the defaults are written
  with no handler around the write, and returned.
\<close>

definition create_default :: "world \<Rightarrow> error + dict \<times> world" where
  "create_default w =
     (let cfg = default_config (script_dir w)
      in case write_config cfg w of Inl e \<Rightarrow> Inl e | Inr w' \<Rightarrow> Inr (cfg, w'))"

text \<open>
  Lines 90-105, for the value \<^verbatim>\<open>json.loads\<close> returned. The test \<^verbatim>\<open>"base_dir" in cfg\<close>, the
  subscript and \<^verbatim>\<open>cfg.get\<close> are those of a \<^verbatim>\<open>dict\<close>; on a list or a string the first is a
  membership test and the other two raise, on any other value the first raises.
  \<^verbatim>\<open>Path(x)\<close> raises unless \<open>x\<close> is a string, and line 92, which no handler encloses,
  raises where the string cannot be expanded and resolved. The last write is inside
  \<^verbatim>\<open>try ... except Exception: pass\<close>: a failure is swallowed, and may have emptied the file.
\<close>

definition migrate_keys :: "dict \<Rightarrow> string \<Rightarrow> world \<Rightarrow> dict \<times> world" where
  "migrate_keys cfg base w =
     (let defaults = default_config base;
          cfg' = fold (\<lambda>(k, v). setdefault k v) defaults cfg
      in (cfg',
          case write_config cfg' w of
            Inl e \<Rightarrow> w\<lparr>config_doc := failed_write (config_write_empties w) (config_doc w)\<rparr>
          | Inr w' \<Rightarrow> w'))"

fun migrate :: "json \<Rightarrow> world \<Rightarrow> error + dict \<times> world" where
  "migrate (JDict cfg) w =
     (case map_of cfg ''base_dir'' of
        None \<Rightarrow> Inr (migrate_keys cfg (script_dir w) w)
      | Some (JStr s) \<Rightarrow>
          (case normalize w s of
             Inl e \<Rightarrow> Inl e
           | Inr s' \<Rightarrow> Inr (migrate_keys (dict_set ''base_dir'' (JStr s') cfg) s' w))
      | Some _ \<Rightarrow> Inl TypeError)"
| "migrate (JList xs) w = (if JStr ''base_dir'' \<in> set xs then Inl TypeError else Inl AttributeError)"
| "migrate (JStr s) w = (if contains s ''base_dir'' then Inl TypeError else Inl AttributeError)"
| "migrate JNull w = Inl TypeError"
| "migrate (JBool b) w = Inl TypeError"
| "migrate (JInt n) w = Inl TypeError"

definition load_or_create_config :: "world \<Rightarrow> error + dict \<times> world" where
  "load_or_create_config w =
     (case config_doc w of
        Missing \<Rightarrow> create_default w
      | Unreadable \<Rightarrow> create_default w
      | Invalid \<Rightarrow> create_default w
      | Parsed j \<Rightarrow> migrate j w)"

subsection \<open>The directory tree\<close>

text \<open>
  Looking a path up walks the tree from the root. A component below a regular file is
  \<^verbatim>\<open>ENOTDIR\<close>, a missing name is \<^verbatim>\<open>ENOENT\<close>, a component below a directory without
  search permission is \<^verbatim>\<open>EACCES\<close>. Passing through a directory needs no read permission,
  listing it does.
\<close>

fun stat :: "node \<Rightarrow> path \<Rightarrow> error + node" where
  "stat n [] = Inr n"
| "stat File (c # cs) = Inl NotADirectoryError"
| "stat (Dir a es) (c # cs) =
     (if a = Locked then Inl PermissionError
      else case map_of es c of None \<Rightarrow> Inl FileNotFoundError | Some m \<Rightarrow> stat m cs)"

text \<open>
  \<^verbatim>\<open>Path.exists\<close>, \<^verbatim>\<open>is_file\<close> and \<^verbatim>\<open>is_dir\<close> answer false where the lookup ends in
  \<^verbatim>\<open>ENOENT\<close> or \<^verbatim>\<open>ENOTDIR\<close> and raise its error otherwise.
\<close>

definition ignore_error :: "error \<Rightarrow> bool" where
  "ignore_error e = (e = FileNotFoundError \<or> e = NotADirectoryError)"

definition exists :: "world \<Rightarrow> path \<Rightarrow> error + bool" where
  "exists w p =
     (case stat (tree w) p of
        Inl e \<Rightarrow> if ignore_error e then Inr False else Inl e
      | Inr n \<Rightarrow> Inr True)"

definition is_file :: "world \<Rightarrow> path \<Rightarrow> error + bool" where
  "is_file w p =
     (case stat (tree w) p of
        Inl e \<Rightarrow> if ignore_error e then Inr False else Inl e
      | Inr File \<Rightarrow> Inr True
      | Inr (Dir a es) \<Rightarrow> Inr False)"

definition is_dir :: "world \<Rightarrow> path \<Rightarrow> error + bool" where
  "is_dir w p =
     (case stat (tree w) p of
        Inl e \<Rightarrow> if ignore_error e then Inr False else Inl e
      | Inr File \<Rightarrow> Inr False
      | Inr (Dir a es) \<Rightarrow> Inr True)"

definition iterdir :: "world \<Rightarrow> path \<Rightarrow> error + path list" where
  "iterdir w p =
     (case stat (tree w) p of
        Inl e \<Rightarrow> Inl e
      | Inr File \<Rightarrow> Inl NotADirectoryError
      | Inr (Dir Listable es) \<Rightarrow> Inr (map (\<lambda>(n, m). p @ [n]) es)
      | Inr (Dir Denied es) \<Rightarrow> Inl PermissionError
      | Inr (Dir Locked es) \<Rightarrow> Inl PermissionError
      | Inr (Dir Faulty es) \<Rightarrow> Inl OSError)"

text \<open>
  A loop or comprehension that keeps the elements passing a test which may raise: the
  first exception ends it.
\<close>

fun filter_e :: "('a \<Rightarrow> error + bool) \<Rightarrow> 'a list \<Rightarrow> error + 'a list" where
  "filter_e P [] = Inr []"
| "filter_e P (x # xs) =
     (case P x of
        Inl e \<Rightarrow> Inl e
      | Inr b \<Rightarrow>
          (case filter_e P xs of
             Inl e \<Rightarrow> Inl e
           | Inr ys \<Rightarrow> Inr (if b then x # ys else ys)))"

text \<open>\<^verbatim>\<open>p.name\<close>, \<^verbatim>\<open>p.parts\<close> (the root is the first part) and \<^verbatim>\<open>p.suffix\<close>.\<close>

definition name :: "path \<Rightarrow> string" where
  "name p = (if p = [] then [] else last p)"

definition parts :: "path \<Rightarrow> string list" where
  "parts p = ''/'' # p"

definition suffix :: "string \<Rightarrow> string" where
  "suffix nm =
     (if CHR ''.'' \<in> set nm
      then (let i = length nm - 1 - length (takeWhile (\<lambda>c. c \<noteq> CHR ''.'') (rev nm))
            in if 0 < i \<and> i < length nm - 1 then drop i nm else [])
      else [])"

definition is_python_file :: "world \<Rightarrow> path \<Rightarrow> error + bool" where
  "is_python_file w p =
     (case is_file w p of
        Inl e \<Rightarrow> Inl e
      | Inr f \<Rightarrow> Inr (f \<and> lower (suffix (name p)) = ''.py'' \<and> \<not> startswith (name p) ''__''))"

subsection \<open>Listing folders and scripts\<close>

text \<open>
  Both functions run the listing and the tests on its entries inside
  \<^verbatim>\<open>try ... except (FileNotFoundError, PermissionError): return []\<close>.
\<close>

definition except_missing :: "error \<Rightarrow> error + path list" where
  "except_missing e = (if e = FileNotFoundError \<or> e = PermissionError then Inr [] else Inl e)"

definition list_subfolders :: "dict \<Rightarrow> path \<Rightarrow> world \<Rightarrow> error + path list" where
  "list_subfolders cfg unit_path w =
     (let show_hidden = truthy (dict_get cfg ''show_hidden_folders'' (JBool False))
      in case iterdir w unit_path of
           Inl e \<Rightarrow> except_missing e
         | Inr ps \<Rightarrow>
             (case filter_e
                     (\<lambda>p. case is_dir w p of
                            Inl e \<Rightarrow> Inl e
                          | Inr d \<Rightarrow>
                              Inr (d \<and> \<not> (\<not> show_hidden \<and> startswith (name p) ''.'')))
                     ps of
                Inl e \<Rightarrow> except_missing e
              | Inr folders \<Rightarrow> Inr (sort_key (\<lambda>x. lower (name x)) folders)))"

definition list_scripts :: "path \<Rightarrow> world \<Rightarrow> error + path list" where
  "list_scripts folder w =
     (case iterdir w folder of
        Inl e \<Rightarrow> except_missing e
      | Inr ps \<Rightarrow>
          (case filter_e (is_python_file w) ps of
             Inl e \<Rightarrow> except_missing e
           | Inr scripts \<Rightarrow> Inr (sort_key (\<lambda>x. lower (name x)) scripts)))"

subsection \<open>Recursive search\<close>

text \<open>
  \<^verbatim>\<open>unit_path.rglob("*.py")\<close>: every entry below the directory whose name ends in \<open>.py\<close>
  (the match tells upper from lower case), the entries of a directory before those of its
  subdirectories. The walk starts when \<^verbatim>\<open>is_dir\<close> holds of the unit path, and raises when
  that test does. A directory that refuses its listing is skipped; an input/output error
  stops the walk with an exception.
\<close>

definition glob_py :: "string \<Rightarrow> bool" where
  "glob_py nm = startswith (rev nm) (rev ''.py'')"

fun walk :: "path \<Rightarrow> node \<Rightarrow> error + path list"
  and walk_list :: "path \<Rightarrow> (string \<times> node) list \<Rightarrow> error + path list" where
  "walk p File = Inr []"
| "walk p (Dir Listable es) =
     (case walk_list p es of
        Inl e \<Rightarrow> Inl e
      | Inr below \<Rightarrow> Inr (map (\<lambda>(n, m). p @ [n]) (filter (\<lambda>(n, m). glob_py n) es) @ below))"
| "walk p (Dir Denied es) = Inr []"
| "walk p (Dir Locked es) = Inr []"
| "walk p (Dir Faulty es) = Inl OSError"
| "walk_list p [] = Inr []"
| "walk_list p ((n, m) # es) =
     (case walk (p @ [n]) m of
        Inl e \<Rightarrow> Inl e
      | Inr here \<Rightarrow> (case walk_list p es of Inl e \<Rightarrow> Inl e | Inr rest \<Rightarrow> Inr (here @ rest)))"

definition rglob_py :: "world \<Rightarrow> path \<Rightarrow> error + path list" where
  "rglob_py w p =
     (case stat (tree w) p of
        Inl e \<Rightarrow> if ignore_error e then Inr [] else Inl e
      | Inr n \<Rightarrow> walk p n)"

text \<open>
  \<^verbatim>\<open>set(cfg.get("ignore_dirs", []))\<close>: the elements of a list, the characters of a string or
  the keys of a \<^verbatim>\<open>dict\<close>; any other value, and a list or \<^verbatim>\<open>dict\<close> among the elements, raises.
\<close>

fun py_iter :: "json \<Rightarrow> error + json list" where
  "py_iter (JList xs) = Inr xs"
| "py_iter (JStr s) = Inr (map (\<lambda>c. JStr [c]) s)"
| "py_iter (JDict d) = Inr (map (\<lambda>(k, v). JStr k) d)"
| "py_iter JNull = Inl TypeError"
| "py_iter (JBool b) = Inl TypeError"
| "py_iter (JInt n) = Inl TypeError"

fun hashable :: "json \<Rightarrow> bool" where
  "hashable (JList xs) = False"
| "hashable (JDict d) = False"
| "hashable JNull = True"
| "hashable (JBool b) = True"
| "hashable (JInt n) = True"
| "hashable (JStr s) = True"

definition ignore_dirs :: "dict \<Rightarrow> error + json list" where
  "ignore_dirs cfg =
     (case py_iter (dict_get cfg ''ignore_dirs'' (JList [])) of
        Inl e \<Rightarrow> Inl e
      | Inr xs \<Rightarrow> if list_all hashable xs then Inr xs else Inl TypeError)"

definition search_scripts :: "dict \<Rightarrow> path \<Rightarrow> string \<Rightarrow> world \<Rightarrow> error + path list" where
  "search_scripts cfg unit_path query w =
     (let q = strip (lower query)
      in case ignore_dirs cfg of
           Inl e \<Rightarrow> Inl e
         | Inr ign \<Rightarrow>
             (case rglob_py w unit_path of
                Inl e \<Rightarrow> Inr []
              | Inr ps \<Rightarrow>
                  (case filter_e
                          (\<lambda>p. case is_file w p of
                                 Inl e \<Rightarrow> Inl e
                               | Inr f \<Rightarrow>
                                   Inr (f \<and> \<not> startswith (name p) ''__'' \<and>
                                        \<not> (\<exists>part \<in> set (parts p). JStr part \<in> set ign) \<and>
                                        contains (lower (name p)) q))
                          ps of
                     Inl e \<Rightarrow> Inr []
                   | Inr hits \<Rightarrow> Inr (sort_key (\<lambda>x. lower (name x)) hits))))"

subsection \<open>Recent scripts\<close>

text \<open>
  \<^verbatim>\<open>get_recent_scripts\<close> reads the state document and writes nothing. No handler encloses
  its loop: an exception of \<^verbatim>\<open>exists\<close> or \<^verbatim>\<open>is_file\<close> reaches the caller.
\<close>

definition get_recent_scripts :: "dict \<Rightarrow> world \<Rightarrow> error + path list" where
  "get_recent_scripts cfg w =
     (case filter_e
             (\<lambda>p. case exists w p of
                    Inl e \<Rightarrow> Inl e
                  | Inr x \<Rightarrow> if x then is_python_file w p else Inr False)
             (recent (load_state w)) of
        Inl e \<Rightarrow> Inl e
      | Inr out \<Rightarrow>
          (case recent_limit cfg of Inl e \<Rightarrow> Inl e | Inr n \<Rightarrow> Inr (slice_to n out)))"


subsection \<open>Running a script\<close>

text \<open>
  The terminal is an interactive session: \<open>stdin w n\<close> is the \<open>n\<close>-th line the user types,
  and \<^verbatim>\<open>input\<close> takes the next one.
  What \<^verbatim>\<open>run_script\<close> prints tells its three ways out apart; they are the outcome here.
\<close>

datatype run_outcome = Cancelled | Finished int | ExecError

definition input :: "world \<Rightarrow> string \<times> world" where
  "input w = (stdin w (stdin_pos w), w\<lparr>stdin_pos := Suc (stdin_pos w)\<rparr>)"

definition pause :: "world \<Rightarrow> world" where
  "pause w = snd (input w)"

text \<open>\<^verbatim>\<open>raw.split()\<close>: the words between runs of blanks.\<close>

fun split_ws :: "string \<Rightarrow> string \<Rightarrow> string list" where
  "split_ws cur [] = (if cur = [] then [] else [cur])"
| "split_ws cur (c # cs) =
     (if is_space c then (if cur = [] then split_ws [] cs else cur # split_ws [] cs)
      else split_ws (cur @ [c]) cs)"

text \<open>
  \<^verbatim>\<open>log_event\<close> swallows every exception: a log file name that is not a string, a file that
  cannot be opened. Each line is kept with the name of the file it went to.
\<close>

definition log_event :: "dict \<Rightarrow> log_entry \<Rightarrow> world \<Rightarrow> world" where
  "log_event cfg message w =
     (case dict_get cfg ''log_file'' (JStr ''dashboard.log'') of
        JStr f \<Rightarrow> if log_writable w then w\<lparr>log_lines := log_lines w @ [(f, message)]\<rparr> else w
      | _ \<Rightarrow> w)"

definition run_script :: "dict \<Rightarrow> path \<Rightarrow> world \<Rightarrow> (error + run_outcome) \<times> world" where
  "run_script cfg script_path w =
     (let (go, w1) =
            (if truthy (dict_get cfg ''confirm_before_run'' (JBool True))
             then (let (ans, w') = input w in (lower (strip ans) = ''s'', w'))
             else (True, w))
      in if \<not> go then (Inr Cancelled, pause w1)
         else
           (let (args, w2) =
                  (if truthy (dict_get cfg ''ask_args_before_run'' (JBool True))
                   then (let (line, w') = input w1; raw = strip line
                         in if raw \<noteq> []
                            then (case shlex_split w' raw of
                                    Some ts \<Rightarrow> (ts, w')
                                  | None \<Rightarrow> (split_ws [] raw, w'))
                            else ([], w'))
                   else ([], w1));
                w3 = log_event cfg (RUN script_path args) w2
            in case add_recent cfg script_path w3 of
                 Inl e \<Rightarrow> (Inl e, w3)
               | Inr w4 \<Rightarrow>
                   (case subprocess_run w4 script_path args of
                      Inl e \<Rightarrow> (Inr ExecError, pause w4)
                    | Inr code \<Rightarrow> (Inr (Finished code), pause w4))))"

subsection \<open>A sample installation\<close>

text \<open>
  The tree of the sample: the unit \<open>/srv/app/Unidad 1\<close> with scripts, a virtual environment,
  a subfolder and a folder that refuses its listing; a unit \<open>/srv/app/Unidad 2\<close> without
  read and search permission; a copy of the first unit below a directory named \<open>venv\<close>;
  and a regular file \<open>/notes.txt\<close>. The sample cannot expand the home of another user or
  resolve a name with a null character.
\<close>

definition demo_tree :: node where
  "demo_tree =
     Dir Listable
       [(''srv'', Dir Listable
           [(''app'', Dir Listable
               [(''Unidad 1'', Dir Listable
                   [(''b.py'', File),
                    (''a.py'', File),
                    (''__init__.py'', File),
                    (''.venv'', Dir Listable [(''c.py'', File)]),
                    (''tareas'', Dir Listable [(''Aviso.py'', File)]),
                    (''privado'', Dir Denied [(''x.py'', File)])]),
                (''Unidad 2'', Dir Locked [(''z.py'', File)])]),
            (''venv'', Dir Listable
               [(''Unidad 1'', Dir Listable [(''a.py'', File)])])]),
        (''notes.txt'', File)]"

definition demo_unit :: path where
  "demo_unit = [''srv'', ''app'', ''Unidad 1'']"

definition demo_world :: world where
  "demo_world =
     \<lparr>config_doc = Missing, config_writable = True, config_write_empties = False,
      state_doc =
        Parsed (StateDict
          (Some [demo_unit @ [''b.py''], demo_unit @ [''gone.py''], demo_unit @ [''a.py''],
                 demo_unit @ [''tareas'', ''Aviso.py'']])
          None),
      state_writable = True, state_write_empties = False,
      log_lines = [], log_writable = True,
      script_dir = ''/srv/app'',
      normalize =
        (\<lambda>s. if CHR 0x00 \<in> set s then Inl ValueError
             else if startswith s ''~'' then Inl RuntimeError
             else if startswith s ''/'' then Inr s
             else Inr (''/srv/app/'' @ s)),
      resolve = (\<lambda>p. p),
      tree = demo_tree,
      stdin = (\<lambda>n. ''n''),
      stdin_pos = 0,
      shlex_split = (\<lambda>s. None),
      subprocess_run = (\<lambda>p args. Inr 0)\<rparr>"


text \<open>A configuration document written by an older version and edited by hand.\<close>

definition demo_stored :: dict where
  "demo_stored =
     [(''base_dir'', JStr ''proyectos''), (''recent_limit'', JInt 3), (''theme'', JStr ''dark'')]"

text \<open>
  A stored recent list, one of whose scripts is in the unit that has lost its search
  permission since the script was run.
\<close>

definition demo_recent_locked :: "path list" where
  "demo_recent_locked =
     [demo_unit @ [''b.py''], [''srv'', ''app'', ''Unidad 2'', ''z.py''], demo_unit @ [''a.py'']]"

section \<open>Properties\<close>

subsection \<open>Recent scripts: \<^verbatim>\<open>add_recent\<close>\<close>















subsection \<open>Favourites: \<^verbatim>\<open>toggle_favorite\<close> and \<^verbatim>\<open>is_favorite\<close>\<close>




subsection \<open>Loading the configuration\<close>

lemma map_of_setdefault:
  "map_of (setdefault k v d) x = (if map_of d x = None \<and> x = k then Some v else map_of d x)"
  by (auto simp: setdefault_def map_of_append map_add_def split: option.splits)

lemma map_of_fold_setdefault:
  "map_of (fold (\<lambda>(k, v). setdefault k v) ds d) x =
     (case map_of d x of None \<Rightarrow> map_of ds x | Some v \<Rightarrow> Some v)"
proof (induction ds arbitrary: d)
  case Nil
  then show ?case by (simp split: option.splits)
next
  case (Cons kv ds)
  obtain k v where kv: "kv = (k, v)" by (cases kv)
  show ?case
    by (auto simp: kv Cons.IH map_of_setdefault split: option.splits)
qed

lemma map_of_dict_set:
  "map_of (dict_set k v d) x = (if x = k then Some v else map_of d x)"
  by (induction d) auto

lemma map_of_default_config_other:
  "k \<noteq> ''base_dir'' \<Longrightarrow> map_of (default_config b) k = map_of (default_config b') k"
  by (simp add: default_config_def)

lemma migrate_keys_lookup:
  "map_of (fst (migrate_keys cfg base w)) x =
     (case map_of cfg x of None \<Rightarrow> map_of (default_config base) x | Some v \<Rightarrow> Some v)"
  by (simp add: migrate_keys_def Let_def map_of_fold_setdefault)

lemma migrate_keys_world:
  "snd (migrate_keys cfg base w) =
     (if config_writable w then w\<lparr>config_doc := Parsed (JDict (fst (migrate_keys cfg base w)))\<rparr>
      else w\<lparr>config_doc := failed_write (config_write_empties w) (config_doc w)\<rparr>)"
  by (simp add: migrate_keys_def Let_def write_config_def)

text \<open>
  Claim C3, as the code has it. For a stored configuration that is a JSON object whose
  \<open>base_dir\<close>, when present, is a string that can be expanded and resolved,
  \<^verbatim>\<open>load_or_create_config\<close> returns a document that has every key of the default template;
  every stored key other than \<open>base_dir\<close> keeps its stored value, unknown keys included; a
  stored \<open>base_dir\<close> is replaced by its absolute, resolved form; every key the stored
  document lacks has its default value (for \<open>base_dir\<close>, the directory of the script) and
  no other key is added. When the write succeeds, the file holds the merged document.
\<close>

theorem load_config_fills_missing_keys:
  assumes doc: "config_doc w = Parsed (JDict stored)"
    and str: "\<forall>v. map_of stored ''base_dir'' = Some v \<longrightarrow>
                (\<exists>s s'. v = JStr s \<and> normalize w s = Inr s')"
  shows "\<exists>cfg w'. load_or_create_config w = Inr (cfg, w') \<and>
           (\<forall>k \<in> fst ` set (default_config (script_dir w)). map_of cfg k \<noteq> None) \<and>
           (\<forall>k v. k \<noteq> ''base_dir'' \<and> map_of stored k = Some v \<longrightarrow> map_of cfg k = Some v) \<and>
           (\<forall>s s'. map_of stored ''base_dir'' = Some (JStr s) \<and> normalize w s = Inr s' \<longrightarrow>
                map_of cfg ''base_dir'' = Some (JStr s')) \<and>
           (\<forall>k. map_of stored k = None \<longrightarrow>
                map_of cfg k = map_of (default_config (script_dir w)) k) \<and>
           (config_writable w \<longrightarrow> w' = w\<lparr>config_doc := Parsed (JDict cfg)\<rparr>)"
proof (cases "map_of stored ''base_dir''")
  case None
  let ?r = "migrate_keys stored (script_dir w) w"
  have run: "load_or_create_config w = Inr (fst ?r, snd ?r)"
    using doc None by (simp add: load_or_create_config_def)
  have look: "map_of (fst ?r) k =
      (case map_of stored k of None \<Rightarrow> map_of (default_config (script_dir w)) k | Some v \<Rightarrow> Some v)" for k
    by (rule migrate_keys_lookup)
  have keys: "\<forall>k \<in> fst ` set (default_config (script_dir w)). map_of (fst ?r) k \<noteq> None"
  proof
    fix k assume "k \<in> fst ` set (default_config (script_dir w))"
    then have "map_of (default_config (script_dir w)) k \<noteq> None"
      by (simp add: map_of_eq_None_iff)
    then show "map_of (fst ?r) k \<noteq> None" by (simp add: look split: option.splits)
  qed
  have kept: "\<forall>k v. k \<noteq> ''base_dir'' \<and> map_of stored k = Some v \<longrightarrow> map_of (fst ?r) k = Some v"
    by (simp add: look)
  have base: "\<forall>s s'. map_of stored ''base_dir'' = Some (JStr s) \<and> normalize w s = Inr s' \<longrightarrow>
                map_of (fst ?r) ''base_dir'' = Some (JStr s')"
    using None by simp
  have filled: "\<forall>k. map_of stored k = None \<longrightarrow>
                map_of (fst ?r) k = map_of (default_config (script_dir w)) k"
    by (simp add: look)
  have world: "config_writable w \<longrightarrow> snd ?r = w\<lparr>config_doc := Parsed (JDict (fst ?r))\<rparr>"
    by (simp add: migrate_keys_world)
  show ?thesis
    using run keys kept base filled world by blast
next
  case (Some v)
  with str obtain s n where v: "v = JStr s" and n: "normalize w s = Inr n" by blast
  let ?d = "dict_set ''base_dir'' (JStr n) stored"
  let ?r = "migrate_keys ?d n w"
  have run: "load_or_create_config w = Inr (fst ?r, snd ?r)"
    using doc Some v n by (simp add: load_or_create_config_def)
  have look: "map_of (fst ?r) k =
      (if k = ''base_dir'' then Some (JStr n)
       else case map_of stored k of None \<Rightarrow> map_of (default_config (script_dir w)) k
            | Some v \<Rightarrow> Some v)" for k
  proof (cases "k = ''base_dir''")
    case True
    then show ?thesis by (simp add: migrate_keys_lookup map_of_dict_set)
  next
    case False
    then show ?thesis
      using map_of_default_config_other [of k n "script_dir w"]
      by (cases "map_of stored k") (simp_all add: migrate_keys_lookup map_of_dict_set)
  qed
  have keys: "\<forall>k \<in> fst ` set (default_config (script_dir w)). map_of (fst ?r) k \<noteq> None"
  proof
    fix k assume "k \<in> fst ` set (default_config (script_dir w))"
    then have "map_of (default_config (script_dir w)) k \<noteq> None"
      by (simp add: map_of_eq_None_iff)
    then show "map_of (fst ?r) k \<noteq> None" by (simp add: look split: option.splits)
  qed
  have kept: "\<forall>k v. k \<noteq> ''base_dir'' \<and> map_of stored k = Some v \<longrightarrow> map_of (fst ?r) k = Some v"
    by (simp add: look)
  have base: "\<forall>s s'. map_of stored ''base_dir'' = Some (JStr s) \<and> normalize w s = Inr s' \<longrightarrow>
                map_of (fst ?r) ''base_dir'' = Some (JStr s')"
    using Some v n by (simp add: look)
  have filled: "\<forall>k. map_of stored k = None \<longrightarrow>
                map_of (fst ?r) k = map_of (default_config (script_dir w)) k"
    using Some by (auto simp: look)
  have world: "config_writable w \<longrightarrow> snd ?r = w\<lparr>config_doc := Parsed (JDict (fst ?r))\<rparr>"
    by (simp add: migrate_keys_world)
  show ?thesis
    using run keys kept base filled world by blast
qed

theorem load_config_fills_missing_keys_witness:
  "config_doc (demo_world\<lparr>config_doc := Parsed (JDict demo_stored)\<rparr>) = Parsed (JDict demo_stored) \<and>
   map_of demo_stored ''base_dir'' = Some (JStr ''proyectos'') \<and>
   normalize (demo_world\<lparr>config_doc := Parsed (JDict demo_stored)\<rparr>) ''proyectos''
     = Inr ''/srv/app/proyectos'' \<and>
   map_of demo_stored ''confirm_before_run'' = None \<and>
   (\<exists>cfg w'. load_or_create_config (demo_world\<lparr>config_doc := Parsed (JDict demo_stored)\<rparr>)
               = Inr (cfg, w') \<and>
      map_of cfg ''recent_limit'' = Some (JInt 3) \<and>
      map_of cfg ''theme'' = Some (JStr ''dark'') \<and>
      map_of cfg ''base_dir'' = Some (JStr ''/srv/app/proyectos'') \<and>
      map_of cfg ''confirm_before_run'' = Some (JBool True) \<and>
      map_of cfg ''log_file'' = Some (JStr ''dashboard.log'') \<and>
      config_doc w' = Parsed (JDict cfg))"
proof -
  let ?w = "demo_world\<lparr>config_doc := Parsed (JDict demo_stored)\<rparr>"
  have doc: "config_doc ?w = Parsed (JDict demo_stored)" by simp
  have b: "map_of demo_stored ''base_dir'' = Some (JStr ''proyectos'')"
    by (simp add: demo_stored_def)
  have m: "map_of demo_stored ''confirm_before_run'' = None"
    "map_of demo_stored ''log_file'' = None"
    "map_of demo_stored ''recent_limit'' = Some (JInt 3)"
    "map_of demo_stored ''theme'' = Some (JStr ''dark'')"
    by (simp_all add: demo_stored_def)
  have env: "normalize ?w ''proyectos'' = Inr ''/srv/app/proyectos''" "script_dir ?w = ''/srv/app''"
    "config_writable ?w"
    by (simp_all add: demo_world_def)
  from b env(1) have str: "\<forall>v. map_of demo_stored ''base_dir'' = Some v \<longrightarrow>
      (\<exists>s s'. v = JStr s \<and> normalize ?w s = Inr s')" by simp
  have d: "map_of (default_config ''/srv/app'') ''confirm_before_run'' = Some (JBool True)"
    "map_of (default_config ''/srv/app'') ''log_file'' = Some (JStr ''dashboard.log'')"
    by (simp_all add: default_config_def)
  from load_config_fills_missing_keys [OF doc str]
  obtain cfg w' where run: "load_or_create_config ?w = Inr (cfg, w')"
    and kept: "\<forall>k v. k \<noteq> ''base_dir'' \<and> map_of demo_stored k = Some v \<longrightarrow> map_of cfg k = Some v"
    and base: "\<forall>s s'. map_of demo_stored ''base_dir'' = Some (JStr s) \<and> normalize ?w s = Inr s' \<longrightarrow>
                map_of cfg ''base_dir'' = Some (JStr s')"
    and filled: "\<forall>k. map_of demo_stored k = None \<longrightarrow>
                map_of cfg k = map_of (default_config (script_dir ?w)) k"
    and world: "config_writable ?w \<longrightarrow> w' = ?w\<lparr>config_doc := Parsed (JDict cfg)\<rparr>"
    by blast
  have 1: "map_of cfg ''recent_limit'' = Some (JInt 3)" "map_of cfg ''theme'' = Some (JStr ''dark'')"
    using kept m by simp_all
  have 2: "map_of cfg ''base_dir'' = Some (JStr ''/srv/app/proyectos'')"
    using base b env(1) by blast
  have 3: "map_of cfg ''confirm_before_run'' = Some (JBool True)"
    "map_of cfg ''log_file'' = Some (JStr ''dashboard.log'')"
    using filled m d env(2) by simp_all
  have 4: "config_doc w' = Parsed (JDict cfg)"
    using world env(3) by simp
  show ?thesis using doc b env(1) m(1) run 1 2 3 4 by blast
qed

text \<open>
  The stored \<open>base_dir\<close> of the sample is the relative name \<open>proyectos\<close>; the loaded
  document holds \<open>/srv/app/proyectos\<close> under that key, not the stored value.
\<close>

theorem load_config_base_dir_counterexample:
  "map_of demo_stored ''base_dir'' = Some (JStr ''proyectos'') \<and>
   (case load_or_create_config (demo_world\<lparr>config_doc := Parsed (JDict demo_stored)\<rparr>) of
      Inl e \<Rightarrow> None
    | Inr (cfg, w') \<Rightarrow> map_of cfg ''base_dir'') = Some (JStr ''/srv/app/proyectos'')"
  by (simp add: load_or_create_config_def demo_stored_def demo_world_def migrate_keys_def
      setdefault_def default_config_def write_config_def Let_def)

text \<open>A \<open>base_dir\<close> that cannot be expanded: the error of line 92 reaches the caller.\<close>

lemma load_config_unresolvable_base_dir:
  "load_or_create_config
     (demo_world\<lparr>config_doc := Parsed (JDict [(''base_dir'', JStr ''~nadie/proyectos'')])\<rparr>)
     = Inl RuntimeError"
  by (simp add: load_or_create_config_def demo_world_def)

text \<open>
  Claim C6 at a configuration file that cannot be written: where the document is absent,
  unreadable or not JSON, \<^verbatim>\<open>load_or_create_config\<close> writes the defaults with no handler
  around the write (lines 80 and 87), and the error of the write reaches the caller. The
  write after the migration (lines 100-103) is the one inside \<^verbatim>\<open>try ... except\<close>.
\<close>

theorem load_config_unwritable_raises:
  "load_or_create_config (demo_world\<lparr>config_doc := Missing, config_writable := False\<rparr>)
     = Inl OSError \<and>
   load_or_create_config (demo_world\<lparr>config_doc := Unreadable, config_writable := False\<rparr>)
     = Inl OSError \<and>
   load_or_create_config (demo_world\<lparr>config_doc := Invalid, config_writable := False\<rparr>)
     = Inl OSError"
  by (simp add: load_or_create_config_def create_default_def write_config_def)

text \<open>
  Where the file can be written, the three conditions give the defaults, written and
  returned.
\<close>

lemma load_config_default_when_writable:
  assumes "config_doc w = Missing \<or> config_doc w = Unreadable \<or> config_doc w = Invalid"
    and "config_writable w"
  shows "load_or_create_config w =
           Inr (default_config (script_dir w),
                w\<lparr>config_doc := Parsed (JDict (default_config (script_dir w)))\<rparr>)"
  using assms
  by (auto simp: load_or_create_config_def create_default_def write_config_def Let_def)

lemma load_config_default_when_writable_witness:
  "config_doc demo_world = Missing \<and> config_writable demo_world \<and>
   load_or_create_config demo_world =
     Inr (default_config ''/srv/app'',
          demo_world\<lparr>config_doc := Parsed (JDict (default_config ''/srv/app''))\<rparr>)"
proof -
  have a: "config_doc demo_world = Missing" and b: "config_writable demo_world"
    and c: "script_dir demo_world = ''/srv/app''"
    by (simp_all add: demo_world_def)
  from a have a': "config_doc demo_world = Missing \<or> config_doc demo_world = Unreadable \<or>
      config_doc demo_world = Invalid" by simp
  from load_config_default_when_writable [OF a' b] a b c show ?thesis by simp
qed

subsection \<open>Search\<close>

lemma filter_e_Inr:
  "filter_e P xs = Inr ys \<Longrightarrow> ys = filter (\<lambda>x. P x = Inr True) xs"
proof (induction xs arbitrary: ys)
  case Nil
  then show ?case by simp
next
  case (Cons x xs)
  from Cons.prems obtain b zs where b: "P x = Inr b" and zs: "filter_e P xs = Inr zs"
    and ys: "ys = (if b then x # zs else zs)"
    by (auto split: sum.splits)
  from Cons.IH [OF zs] b ys show ?case by simp
qed

lemma filter_e_total:
  "(\<And>x. x \<in> set xs \<Longrightarrow> P x = Inr (Q x)) \<Longrightarrow> filter_e P xs = Inr (filter Q xs)"
  by (induction xs) simp_all

lemma filter_e_guard:
  "filter_e (\<lambda>x. case F x of Inl e \<Rightarrow> Inl e | Inr f \<Rightarrow> Inr (f \<and> G x)) xs =
     (case filter_e F xs of Inl e \<Rightarrow> Inl e | Inr ys \<Rightarrow> Inr (filter G ys))"
  by (induction xs) (simp_all split: sum.splits)

lemma search_scripts_files:
  "search_scripts cfg unit_path query w =
     (case ignore_dirs cfg of
        Inl e \<Rightarrow> Inl e
      | Inr ign \<Rightarrow>
          (case rglob_py w unit_path of
             Inl e \<Rightarrow> Inr []
           | Inr ps \<Rightarrow>
               (case filter_e (is_file w) ps of
                  Inl e \<Rightarrow> Inr []
                | Inr files \<Rightarrow>
                    Inr (sort_key (\<lambda>x. lower (name x))
                           (filter (\<lambda>p. \<not> startswith (name p) ''__'' \<and>
                                        \<not> (\<exists>part \<in> set (parts p). JStr part \<in> set ign) \<and>
                                        contains (lower (name p)) (strip (lower query)))
                              files)))))"
  by (simp add: search_scripts_def filter_e_guard split: sum.splits)

lemma walk_extends:
  "walk p n = Inr ps \<Longrightarrow> q \<in> set ps \<Longrightarrow> \<exists>r. q = p @ r"
  "walk_list p es = Inr ps \<Longrightarrow> q \<in> set ps \<Longrightarrow> \<exists>r. q = p @ r"
proof (induction p n and p es arbitrary: ps and ps rule: walk_walk_list.induct)
  case (1 p)
  then show ?case by simp
next
  case (2 p es)
  from "2.prems"(1) obtain below where b: "walk_list p es = Inr below"
    and ps: "ps = map (\<lambda>(n, m). p @ [n]) (filter (\<lambda>(n, m). glob_py n) es) @ below"
    by (auto split: sum.splits)
  from "2.prems"(2) ps
  have "q \<in> set (map (\<lambda>(n, m). p @ [n]) (filter (\<lambda>(n, m). glob_py n) es)) \<or> q \<in> set below"
    by simp
  then show ?case
  proof
    assume "q \<in> set (map (\<lambda>(n, m). p @ [n]) (filter (\<lambda>(n, m). glob_py n) es))"
    then show ?thesis by auto
  next
    assume "q \<in> set below"
    with "2.IH" b show ?thesis by blast
  qed
next
  case (3 p es)
  then show ?case by simp
next
  case (4 p es)
  then show ?case by simp
next
  case (5 p es)
  then show ?case by simp
next
  case (6 p)
  then show ?case by simp
next
  case (7 p n m es)
  from "7.prems"(1) obtain here rest where h: "walk (p @ [n]) m = Inr here"
    and r: "walk_list p es = Inr rest" and ps: "ps = here @ rest"
    by (auto split: sum.splits)
  from "7.prems"(2) ps have "q \<in> set here \<or> q \<in> set rest" by simp
  then show ?case
  proof
    assume "q \<in> set here"
    with "7.IH"(1) h obtain r' where "q = (p @ [n]) @ r'" by blast
    then show ?thesis by simp
  next
    assume "q \<in> set rest"
    with "7.IH"(2) h r show ?thesis by blast
  qed
qed

lemma rglob_py_extends:
  assumes "rglob_py w p = Inr ps" and "q \<in> set ps"
  shows "\<exists>r. q = p @ r"
  using assms walk_extends(1) [of p _ ps q]
  by (auto simp: rglob_py_def split: sum.splits if_splits)

lemma parts_extends: "set (parts p) \<subseteq> set (parts (p @ r))"
  by (auto simp: parts_def)

lemma lower_char_space: "is_space c \<Longrightarrow> lower_char c = c"
  by (auto simp: is_space_def lower_char_def Let_def)

lemma lower_blank: "\<forall>c \<in> set s. is_space c \<Longrightarrow> lower s = s"
  by (induction s) (simp_all add: lower_def lower_char_space)

lemma strip_blank:
  assumes "\<forall>c \<in> set s. is_space c"
  shows "strip s = []"
proof -
  have "dropWhile is_space s = []"
    unfolding dropWhile_eq_Nil_conv by (rule assms)
  then show ?thesis by (simp only: strip_def dropWhile.simps rev.simps)
qed

lemma contains_empty: "contains s []"
  by (induction s) simp_all

text \<open>
  Claim C4, as the code has it. For a query that is empty or all blanks, the query the
  search uses is the empty string, which every name contains. \<^verbatim>\<open>search_scripts\<close> returns
  what it returns for the empty query: sorted, every path the walk yields that is a file,
  whose name does not start with two underscores and none of whose parts is in
  \<open>ignore_dirs\<close> (the empty list where the walk or a test on a path raises). Whatever the
  search returns for any query is among the results for such a query.
\<close>

theorem search_blank_query_lists_all:
  assumes blank: "\<forall>c \<in> set query. is_space c"
  shows "search_scripts cfg unit_path query w = search_scripts cfg unit_path [] w \<and>
         search_scripts cfg unit_path query w =
           (case ignore_dirs cfg of
              Inl e \<Rightarrow> Inl e
            | Inr ign \<Rightarrow>
                (case rglob_py w unit_path of
                   Inl e \<Rightarrow> Inr []
                 | Inr ps \<Rightarrow>
                     (case filter_e
                             (\<lambda>p. case is_file w p of
                                    Inl e \<Rightarrow> Inl e
                                  | Inr f \<Rightarrow>
                                      Inr (f \<and> \<not> startswith (name p) ''__'' \<and>
                                           \<not> (\<exists>part \<in> set (parts p). JStr part \<in> set ign)))
                             ps of
                        Inl e \<Rightarrow> Inr []
                      | Inr hits \<Rightarrow> Inr (sort_key (\<lambda>x. lower (name x)) hits)))) \<and>
         (\<forall>q hits. search_scripts cfg unit_path q w = Inr hits \<longrightarrow>
            (\<exists>every. search_scripts cfg unit_path query w = Inr every \<and>
                      set hits \<subseteq> set every))"
proof -
  have q: "strip (lower query) = []"
    using blank by (simp add: lower_blank strip_blank)
  have e: "strip (lower []) = []" by (simp add: lower_def strip_def)
  have same: "search_scripts cfg unit_path query w = search_scripts cfg unit_path [] w"
    by (simp add: search_scripts_def q e)
  have form: "search_scripts cfg unit_path query w =
           (case ignore_dirs cfg of
              Inl e \<Rightarrow> Inl e
            | Inr ign \<Rightarrow>
                (case rglob_py w unit_path of
                   Inl e \<Rightarrow> Inr []
                 | Inr ps \<Rightarrow>
                     (case filter_e
                             (\<lambda>p. case is_file w p of
                                    Inl e \<Rightarrow> Inl e
                                  | Inr f \<Rightarrow>
                                      Inr (f \<and> \<not> startswith (name p) ''__'' \<and>
                                           \<not> (\<exists>part \<in> set (parts p). JStr part \<in> set ign)))
                             ps of
                        Inl e \<Rightarrow> Inr []
                      | Inr hits \<Rightarrow> Inr (sort_key (\<lambda>x. lower (name x)) hits))))"
  proof -
    have pred: "(\<lambda>p. case is_file w p of
                        Inl e \<Rightarrow> Inl e
                      | Inr f \<Rightarrow>
                          Inr (f \<and> \<not> startswith (name p) ''__'' \<and>
                               \<not> (\<exists>part \<in> set (parts p). JStr part \<in> set ign) \<and>
                               contains (lower (name p)) []))
               = (\<lambda>p. case is_file w p of
                        Inl e \<Rightarrow> Inl e
                      | Inr f \<Rightarrow>
                          Inr (f \<and> \<not> startswith (name p) ''__'' \<and>
                               \<not> (\<exists>part \<in> set (parts p). JStr part \<in> set ign)))" for ign
      by (rule ext) (simp add: contains_empty split: sum.splits)
    show ?thesis
      by (cases "ignore_dirs cfg"; cases "rglob_py w unit_path")
        (simp_all add: search_scripts_def q pred)
  qed
  have sup: "\<exists>every. search_scripts cfg unit_path query w = Inr every \<and> set hits \<subseteq> set every"
    if run: "search_scripts cfg unit_path q' w = Inr hits" for q' hits
  proof -
    from run obtain ign where ign: "ignore_dirs cfg = Inr ign"
      by (auto simp: search_scripts_files split: sum.splits)
    show ?thesis
    proof (cases "rglob_py w unit_path")
      case (Inl e)
      with run ign show ?thesis by (simp add: search_scripts_files)
    next
      case (Inr ps)
      show ?thesis
      proof (cases "filter_e (is_file w) ps")
        case (Inl e)
        with run ign Inr show ?thesis by (simp add: search_scripts_files)
      next
        case files: (Inr files)
        with run ign Inr show ?thesis
          by (auto simp: search_scripts_files q contains_empty)
      qed
    qed
  qed
  from same form sup show ?thesis by blast
qed

lemma demo_search_all:
  "search_scripts (default_config ''/srv/app'') demo_unit [] demo_world =
     Inr [demo_unit @ [''a.py''], demo_unit @ [''tareas'', ''Aviso.py''], demo_unit @ [''b.py'']]"
  "search_scripts (default_config ''/srv/app'') demo_unit ''  '' demo_world =
     Inr [demo_unit @ [''a.py''], demo_unit @ [''tareas'', ''Aviso.py''], demo_unit @ [''b.py'']]"
  "search_scripts (default_config ''/srv/app'') demo_unit ''.py'' demo_world =
     Inr [demo_unit @ [''a.py''], demo_unit @ [''tareas'', ''Aviso.py''], demo_unit @ [''b.py'']]"
  by code_simp+

theorem search_blank_query_lists_all_witness:
  "(\<forall>c \<in> set ''  ''. is_space c) = True \<and>
   search_scripts (default_config ''/srv/app'') demo_unit ''  '' demo_world =
     Inr [demo_unit @ [''a.py''], demo_unit @ [''tareas'', ''Aviso.py''], demo_unit @ [''b.py'']] \<and>
   search_scripts (default_config ''/srv/app'') demo_unit ''  '' demo_world =
     search_scripts (default_config ''/srv/app'') demo_unit [] demo_world \<and>
   search_scripts (default_config ''/srv/app'') demo_unit ''avi'' demo_world =
     Inr [demo_unit @ [''tareas'', ''Aviso.py'']] \<and>
   set [demo_unit @ [''tareas'', ''Aviso.py'']] \<subseteq>
     set [demo_unit @ [''a.py''], demo_unit @ [''tareas'', ''Aviso.py''], demo_unit @ [''b.py'']]"
proof -
  let ?cfg = "default_config ''/srv/app''"
  let ?all = "[demo_unit @ [''a.py''], demo_unit @ [''tareas'', ''Aviso.py''], demo_unit @ [''b.py'']]"
  have b: "\<forall>c \<in> set ''  ''. is_space c" by (simp add: is_space_def)
  have e: "search_scripts ?cfg demo_unit [] demo_world = Inr ?all" by (rule demo_search_all)
  have a: "search_scripts ?cfg demo_unit ''avi'' demo_world = Inr [demo_unit @ [''tareas'', ''Aviso.py'']]"
    by code_simp
  from search_blank_query_lists_all [OF b, of ?cfg demo_unit demo_world]
  have same: "search_scripts ?cfg demo_unit ''  '' demo_world = search_scripts ?cfg demo_unit [] demo_world"
    and sup: "\<forall>q hits. search_scripts ?cfg demo_unit q demo_world = Inr hits \<longrightarrow>
            (\<exists>every. search_scripts ?cfg demo_unit ''  '' demo_world = Inr every \<and>
                      set hits \<subseteq> set every)"
    by blast+
  from same e have r: "search_scripts ?cfg demo_unit ''  '' demo_world = Inr ?all" by simp
  from sup a r have "set [demo_unit @ [''tareas'', ''Aviso.py'']] \<subseteq> set ?all" by fastforce
  with b r same a show ?thesis by blast
qed

text \<open>
  In the sample unit the empty query and the query of two blanks return the three scripts,
  not the empty list. (In the program it is the menu that asks again instead of searching
  when the query is empty: \<^verbatim>\<open>if not q: continue\<close>.)
\<close>

theorem search_empty_query_counterexample:
  "search_scripts (default_config ''/srv/app'') demo_unit [] demo_world =
     Inr [demo_unit @ [''a.py''], demo_unit @ [''tareas'', ''Aviso.py''], demo_unit @ [''b.py'']] \<and>
   search_scripts (default_config ''/srv/app'') demo_unit ''  '' demo_world =
     Inr [demo_unit @ [''a.py''], demo_unit @ [''tareas'', ''Aviso.py''], demo_unit @ [''b.py'']]"
  by (simp add: demo_search_all)

text \<open>
  Claim C5. Every path \<^verbatim>\<open>search_scripts\<close> returns has no part that is a member of
  \<open>ignore_dirs\<close>: none of its directories and not its own name. It is a file below the
  unit path.
\<close>

theorem search_results_avoid_ignored:
  assumes run: "search_scripts cfg unit_path query w = Inr hits" and hit: "p \<in> set hits"
  shows "\<exists>ign. ignore_dirs cfg = Inr ign \<and>
           (\<forall>part \<in> set (parts p). JStr part \<notin> set ign) \<and>
           (\<forall>d \<in> set p. JStr d \<notin> set ign) \<and>
           is_file w p = Inr True \<and> (\<exists>r. p = unit_path @ r)"
proof -
  from run obtain ign where ign: "ignore_dirs cfg = Inr ign"
    by (auto simp: search_scripts_files split: sum.splits)
  show ?thesis
  proof (cases "rglob_py w unit_path")
    case (Inl e)
    with run ign hit show ?thesis by (simp add: search_scripts_files)
  next
    case (Inr ps)
    show ?thesis
    proof (cases "filter_e (is_file w) ps")
      case (Inl e)
      with run ign Inr hit show ?thesis by (simp add: search_scripts_files)
    next
      case files: (Inr files)
      with run ign Inr have hits: "hits = sort_key (\<lambda>x. lower (name x))
          (filter (\<lambda>p. \<not> startswith (name p) ''__'' \<and>
                        \<not> (\<exists>part \<in> set (parts p). JStr part \<in> set ign) \<and>
                        contains (lower (name p)) (strip (lower query))) files)"
        by (simp add: search_scripts_files)
      with hit have in_files: "p \<in> set files"
        and clean: "\<forall>part \<in> set (parts p). JStr part \<notin> set ign"
        by auto
      from filter_e_Inr [OF files] in_files have in_ps: "p \<in> set ps"
        and isfile: "is_file w p = Inr True"
        by simp_all
      from rglob_py_extends [OF Inr in_ps] have ext: "\<exists>r. p = unit_path @ r" .
      from clean have "\<forall>d \<in> set p. JStr d \<notin> set ign" by (simp add: parts_def)
      with ign clean isfile ext show ?thesis by blast
    qed
  qed
qed

theorem search_results_avoid_ignored_witness:
  "search_scripts (default_config ''/srv/app'') demo_unit ''.py'' demo_world =
     Inr [demo_unit @ [''a.py''], demo_unit @ [''tareas'', ''Aviso.py''], demo_unit @ [''b.py'']] \<and>
   is_file demo_world (demo_unit @ [''.venv'', ''c.py'']) = Inr True \<and>
   (\<exists>ign. ignore_dirs (default_config ''/srv/app'') = Inr ign \<and> JStr ''.venv'' \<in> set ign \<and>
      JStr ''tareas'' \<notin> set ign \<and> JStr ''Aviso.py'' \<notin> set ign)"
proof -
  let ?hits = "[demo_unit @ [''a.py''], demo_unit @ [''tareas'', ''Aviso.py''], demo_unit @ [''b.py'']]"
  have run: "search_scripts (default_config ''/srv/app'') demo_unit ''.py'' demo_world = Inr ?hits"
    by (rule demo_search_all)
  have hit: "demo_unit @ [''tareas'', ''Aviso.py''] \<in> set ?hits" by simp
  from search_results_avoid_ignored [OF run hit]
  obtain ign where ign: "ignore_dirs (default_config ''/srv/app'') = Inr ign"
    and clean: "\<forall>d \<in> set (demo_unit @ [''tareas'', ''Aviso.py'']). JStr d \<notin> set ign"
    by blast
  have v: "JStr ''.venv'' \<in> set ign"
    using ign by (auto simp: ignore_dirs_def default_config_def dict_get_def)
  have f: "is_file demo_world (demo_unit @ [''.venv'', ''c.py'']) = Inr True"
    by (simp add: is_file_def demo_world_def demo_tree_def demo_unit_def)
  from clean have "JStr ''tareas'' \<notin> set ign" "JStr ''Aviso.py'' \<notin> set ign" by simp_all
  with run f ign v show ?thesis by blast
qed

text \<open>
  Claim C9. The parts \<^verbatim>\<open>search_scripts\<close> tests are those of the whole path, the unit path's
  own parts included: when a part of the unit path (an ancestor directory, or the unit
  directory) is in \<open>ignore_dirs\<close>, the search returns the empty list for every query and
  every tree.
\<close>

theorem search_ignored_ancestor_empty:
  assumes ign: "ignore_dirs cfg = Inr ign"
    and part: "part \<in> set (parts unit_path)"
    and ignored: "JStr part \<in> set ign"
  shows "search_scripts cfg unit_path query w = Inr []"
proof (cases "rglob_py w unit_path")
  case (Inl e)
  with ign show ?thesis by (simp add: search_scripts_files)
next
  case (Inr ps)
  show ?thesis
  proof (cases "filter_e (is_file w) ps")
    case (Inl e)
    with ign Inr show ?thesis by (simp add: search_scripts_files)
  next
    case files: (Inr files)
    have "\<exists>part \<in> set (parts q). JStr part \<in> set ign" if "q \<in> set files" for q
    proof -
      from filter_e_Inr [OF files] that have "q \<in> set ps" by simp
      from rglob_py_extends [OF Inr this] obtain r where "q = unit_path @ r" ..
      with part parts_extends [of unit_path r] have "part \<in> set (parts q)" by blast
      with ignored show ?thesis by blast
    qed
    then have "filter (\<lambda>p. \<not> startswith (name p) ''__'' \<and>
                        \<not> (\<exists>part \<in> set (parts p). JStr part \<in> set ign) \<and>
                        contains (lower (name p)) (strip (lower query))) files = []"
      by (auto simp: filter_empty_conv)
    with ign Inr files show ?thesis by (simp add: search_scripts_files)
  qed
qed

theorem search_ignored_ancestor_empty_witness:
  "ignore_dirs (default_config ''/srv/app'') =
     Inr [JStr ''.venv'', JStr ''venv'', JStr ''__pycache__'', JStr ''.git'',
          JStr ''.pytest_cache'', JStr ''.mypy_cache'', JStr ''.idea'', JStr ''.vscode''] \<and>
   ''venv'' \<in> set (parts [''srv'', ''venv'', ''Unidad 1'']) \<and>
   is_file demo_world [''srv'', ''venv'', ''Unidad 1'', ''a.py''] = Inr True \<and>
   search_scripts [] [''srv'', ''venv'', ''Unidad 1''] ''a'' demo_world =
     Inr [[''srv'', ''venv'', ''Unidad 1'', ''a.py'']] \<and>
   search_scripts (default_config ''/srv/app'') [''srv'', ''venv'', ''Unidad 1''] ''a'' demo_world
     = Inr []"
proof -
  have a: "ignore_dirs (default_config ''/srv/app'') =
     Inr [JStr ''.venv'', JStr ''venv'', JStr ''__pycache__'', JStr ''.git'',
          JStr ''.pytest_cache'', JStr ''.mypy_cache'', JStr ''.idea'', JStr ''.vscode'']"
    by (simp add: ignore_dirs_def default_config_def dict_get_def)
  have b: "''venv'' \<in> set (parts [''srv'', ''venv'', ''Unidad 1''])" by (simp add: parts_def)
  have c: "JStr ''venv'' \<in> set [JStr ''.venv'', JStr ''venv'', JStr ''__pycache__'', JStr ''.git'',
          JStr ''.pytest_cache'', JStr ''.mypy_cache'', JStr ''.idea'', JStr ''.vscode'']"
    by simp
  have f: "is_file demo_world [''srv'', ''venv'', ''Unidad 1'', ''a.py''] = Inr True"
    by (simp add: is_file_def demo_world_def demo_tree_def)
  have g: "search_scripts [] [''srv'', ''venv'', ''Unidad 1''] ''a'' demo_world =
     Inr [[''srv'', ''venv'', ''Unidad 1'', ''a.py'']]"
    by code_simp
  from search_ignored_ancestor_empty [OF a b c, of "''a''" demo_world] a b f g
  show ?thesis by simp
qed

subsection \<open>Listing\<close>

text \<open>
  A path whose lookup ends in \<^verbatim>\<open>FileNotFoundError\<close> or \<^verbatim>\<open>PermissionError\<close>, and a directory
  that refuses its listing, give the empty list in both functions.
\<close>

lemma list_missing_or_denied_empty:
  assumes "stat (tree w) p = Inl FileNotFoundError \<or> stat (tree w) p = Inl PermissionError \<or>
           (\<exists>es. stat (tree w) p = Inr (Dir Denied es)) \<or>
           (\<exists>es. stat (tree w) p = Inr (Dir Locked es))"
  shows "list_scripts p w = Inr [] \<and> list_subfolders cfg p w = Inr []"
  using assms
  by (auto simp: list_scripts_def list_subfolders_def iterdir_def except_missing_def)

lemma list_missing_or_denied_empty_witness:
  "stat (tree demo_world) [''srv'', ''nothing''] = Inl FileNotFoundError \<and>
   list_scripts [''srv'', ''nothing''] demo_world = Inr [] \<and>
   list_subfolders [] [''srv'', ''nothing''] demo_world = Inr [] \<and>
   stat (tree demo_world) (demo_unit @ [''privado'']) = Inr (Dir Denied [(''x.py'', File)]) \<and>
   list_scripts (demo_unit @ [''privado'']) demo_world = Inr [] \<and>
   list_subfolders [] (demo_unit @ [''privado'']) demo_world = Inr []"
proof -
  let ?A = "\<lambda>p. stat (tree demo_world) p = Inl FileNotFoundError \<or>
      stat (tree demo_world) p = Inl PermissionError \<or>
      (\<exists>es. stat (tree demo_world) p = Inr (Dir Denied es)) \<or>
      (\<exists>es. stat (tree demo_world) p = Inr (Dir Locked es))"
  have a: "stat (tree demo_world) [''srv'', ''nothing''] = Inl FileNotFoundError"
    by (simp add: demo_world_def demo_tree_def)
  have b: "stat (tree demo_world) (demo_unit @ [''privado'']) = Inr (Dir Denied [(''x.py'', File)])"
    by (simp add: demo_world_def demo_tree_def demo_unit_def)
  from a have a': "?A [''srv'', ''nothing'']" by simp
  from b have b': "?A (demo_unit @ [''privado''])" by simp
  from list_missing_or_denied_empty [OF a', of "[]"] list_missing_or_denied_empty [OF b', of "[]"]
    a b
  show ?thesis by blast
qed

text \<open>
  Claim C8 at a path below a regular file: \<open>/notes.txt\<close> is a file, so \<open>/notes.txt/x\<close>
  does not exist, and listing it fails with \<^verbatim>\<open>NotADirectoryError\<close>, which neither
  \<^verbatim>\<open>except (FileNotFoundError, PermissionError)\<close> catches: both functions raise.
\<close>

theorem list_below_file_raises:
  "exists demo_world [''notes.txt'', ''x''] = Inr False \<and>
   list_scripts [''notes.txt'', ''x''] demo_world = Inl NotADirectoryError \<and>
   list_subfolders (default_config ''/srv/app'') [''notes.txt'', ''x''] demo_world
     = Inl NotADirectoryError"
  by (simp add: exists_def ignore_error_def list_scripts_def list_subfolders_def iterdir_def
      except_missing_def demo_world_def demo_tree_def)

subsection \<open>Reading the recent list\<close>

text \<open>
  Claim C10 at a stored list of three paths, with a \<open>recent_limit\<close> of 2, whose second
  path lies in a directory without search permission: \<^verbatim>\<open>Path.exists\<close> raises
  \<^verbatim>\<open>PermissionError\<close> there, no handler encloses the loop of \<^verbatim>\<open>get_recent_scripts\<close>
  (lines 335-342), and the function raises instead of returning at most two entries.
  \<^verbatim>\<open>list_scripts\<close>, which has the handler, returns the empty list for that directory.
\<close>

theorem get_recent_locked_path_raises:
  "recent (load_state (demo_world\<lparr>state_doc := Parsed (StateDict (Some demo_recent_locked) None)\<rparr>))
     = demo_recent_locked \<and>
   length demo_recent_locked = 3 \<and>
   recent_limit [(''recent_limit'', JInt 2)] = Inr 2 \<and>
   exists demo_world [''srv'', ''app'', ''Unidad 2'', ''z.py''] = Inl PermissionError \<and>
   get_recent_scripts [(''recent_limit'', JInt 2)]
     (demo_world\<lparr>state_doc := Parsed (StateDict (Some demo_recent_locked) None)\<rparr>)
     = Inl PermissionError \<and>
   list_scripts [''srv'', ''app'', ''Unidad 2''] demo_world = Inr []"
  by (simp add: load_state_def demo_recent_locked_def recent_limit_def dict_get_def
      exists_def is_file_def is_python_file_def ignore_error_def get_recent_scripts_def
      list_scripts_def iterdir_def except_missing_def demo_world_def demo_tree_def demo_unit_def)

lemma take_filter_front: "\<exists>n. take k (filter P xs) = filter P (take n xs)"
proof (induction xs arbitrary: k)
  case Nil
  then show ?case by simp
next
  case (Cons x xs)
  show ?case
  proof (cases "P x")
    case False
    from Cons.IH [of k] obtain n where "take k (filter P xs) = filter P (take n xs)" ..
    with False have "take k (filter P (x # xs)) = filter P (take (Suc n) (x # xs))" by simp
    then show ?thesis ..
  next
    case True
    show ?thesis
    proof (cases k)
      case 0
      then have "take k (filter P (x # xs)) = filter P (take 0 (x # xs))" by simp
      then show ?thesis ..
    next
      case (Suc j)
      from Cons.IH [of j] obtain n where "take j (filter P xs) = filter P (take n xs)" ..
      with True Suc have "take k (filter P (x # xs)) = filter P (take (Suc n) (x # xs))" by simp
      then show ?thesis ..
    qed
  qed
qed

lemma exists_then_is_file:
  assumes "exists w p = Inr b"
  shows "\<exists>f. is_python_file w p = Inr f"
  using assms
  by (auto simp: exists_def is_file_def is_python_file_def split: sum.splits if_splits node.splits)

text \<open>
  Where every stored path can be looked up, and the \<open>recent_limit\<close> is \<open>L \<ge> 0\<close>,
  \<^verbatim>\<open>get_recent_scripts\<close> returns at most \<open>L\<close> entries: the first \<open>L\<close> of the stored
  entries that still are scripts on disk, which are all such entries of some front segment
  of the stored list, and the first \<open>L\<close> stored entries when all of them are scripts on
  disk. The function only reads: it takes the world and returns the list.
\<close>

lemma get_recent_truncates_on_read:
  assumes lim: "recent_limit cfg = Inr L" and nonneg: "0 \<le> L"
    and seen: "\<forall>p \<in> set (recent (load_state w)). \<exists>b. exists w p = Inr b"
  shows "\<exists>out. get_recent_scripts cfg w = Inr out \<and>
           int (length out) \<le> L \<and>
           out = take (nat L)
                   (filter (\<lambda>p. exists w p = Inr True \<and> is_python_file w p = Inr True)
                      (recent (load_state w))) \<and>
           (\<exists>n. out = filter (\<lambda>p. exists w p = Inr True \<and> is_python_file w p = Inr True)
                         (take n (recent (load_state w)))) \<and>
           ((\<forall>p \<in> set (recent (load_state w)).
                exists w p = Inr True \<and> is_python_file w p = Inr True) \<longrightarrow>
              out = take (nat L) (recent (load_state w)))"
proof -
  let ?ok = "\<lambda>p. exists w p = Inr True \<and> is_python_file w p = Inr True"
  let ?test = "\<lambda>p. case exists w p of
                    Inl e \<Rightarrow> Inl e
                  | Inr x \<Rightarrow> if x then is_python_file w p else Inr False"
  let ?out = "take (nat L) (filter ?ok (recent (load_state w)))"
  have test: "?test p = Inr (?ok p)" if "p \<in> set (recent (load_state w))" for p
  proof -
    from seen that obtain b where b: "exists w p = Inr b" by blast
    from exists_then_is_file [OF b] obtain f where "is_python_file w p = Inr f" ..
    with b show ?thesis by auto
  qed
  have "filter_e ?test (recent (load_state w)) = Inr (filter ?ok (recent (load_state w)))"
    by (rule filter_e_total) (rule test)
  then have run: "get_recent_scripts cfg w = Inr ?out"
    using lim nonneg by (simp add: get_recent_scripts_def slice_to_def)
  have len: "int (length ?out) \<le> L" using nonneg by simp
  have front: "\<exists>n. ?out = filter ?ok (take n (recent (load_state w)))"
    by (rule take_filter_front)
  have every: "(\<forall>p \<in> set (recent (load_state w)). ?ok p) \<longrightarrow>
      ?out = take (nat L) (recent (load_state w))"
    by (simp add: filter_True)
  from run len front every show ?thesis by blast
qed

lemma get_recent_truncates_on_read_witness:
  "recent_limit [(''recent_limit'', JInt 2)] = Inr 2 \<and>
   length (recent (load_state demo_world)) = 4 \<and>
   get_recent_scripts [(''recent_limit'', JInt 2)] demo_world =
     Inr [demo_unit @ [''b.py''], demo_unit @ [''a.py'']]"
proof -
  have a: "recent_limit [(''recent_limit'', JInt 2)] = Inr 2"
    by (simp add: recent_limit_def dict_get_def)
  have b: "(0::int) \<le> 2" by simp
  have c: "length (recent (load_state demo_world)) = 4"
    by (simp add: load_state_def demo_world_def)
  have s: "\<forall>p \<in> set (recent (load_state demo_world)). \<exists>b. exists demo_world p = Inr b"
    by (auto simp: load_state_def exists_def ignore_error_def demo_world_def demo_tree_def
        demo_unit_def)
  have d: "take (nat 2)
             (filter (\<lambda>p. exists demo_world p = Inr True \<and> is_python_file demo_world p = Inr True)
                (recent (load_state demo_world)))
           = [demo_unit @ [''b.py''], demo_unit @ [''a.py'']]"
    by code_simp
  from get_recent_truncates_on_read [OF a b s] a c d show ?thesis by auto
qed

subsection \<open>Running a script\<close>

text \<open>
  Claim C7. When \<open>confirm_before_run\<close> is true and the answer to the question is anything
  but \<open>s\<close> (blanks and case aside), \<^verbatim>\<open>run_script\<close> ends as cancelled and the world is
  the one before but for the two lines read from the terminal (the answer and the pause):
  the state document, with its recent list and favourites, the configuration, the log and
  the tree are unchanged.
\<close>

theorem run_script_declined_changes_nothing:
  assumes confirm: "truthy (dict_get cfg ''confirm_before_run'' (JBool True))"
    and answer: "lower (strip (stdin w (stdin_pos w))) \<noteq> ''s''"
  shows "run_script cfg script_path w
           = (Inr Cancelled, w\<lparr>stdin_pos := Suc (Suc (stdin_pos w))\<rparr>) \<and>
         state_doc (snd (run_script cfg script_path w)) = state_doc w \<and>
         load_state (snd (run_script cfg script_path w)) = load_state w \<and>
         recent (load_state (snd (run_script cfg script_path w))) = recent (load_state w) \<and>
         favorites (load_state (snd (run_script cfg script_path w))) = favorites (load_state w) \<and>
         config_doc (snd (run_script cfg script_path w)) = config_doc w \<and>
         log_lines (snd (run_script cfg script_path w)) = log_lines w \<and>
         tree (snd (run_script cfg script_path w)) = tree w"
proof -
  have run: "run_script cfg script_path w
           = (Inr Cancelled, w\<lparr>stdin_pos := Suc (Suc (stdin_pos w))\<rparr>)"
    using confirm answer by (simp add: run_script_def input_def pause_def)
  then show ?thesis by (simp add: load_state_def)
qed

theorem run_script_declined_changes_nothing_witness:
  "truthy (dict_get (default_config ''/srv/app'') ''confirm_before_run'' (JBool True)) \<and>
   lower (strip (stdin demo_world (stdin_pos demo_world))) = ''n'' \<and>
   fst (run_script (default_config ''/srv/app'') (demo_unit @ [''a.py'']) demo_world)
     = Inr Cancelled \<and>
   recent (load_state (snd (run_script (default_config ''/srv/app'') (demo_unit @ [''a.py''])
                              demo_world)))
     = [demo_unit @ [''b.py''], demo_unit @ [''gone.py''], demo_unit @ [''a.py''],
        demo_unit @ [''tareas'', ''Aviso.py'']]"
proof -
  have a: "truthy (dict_get (default_config ''/srv/app'') ''confirm_before_run'' (JBool True))"
    by (simp add: dict_get_def default_config_def)
  have n: "lower (strip (stdin demo_world (stdin_pos demo_world))) = ''n''"
    by code_simp
  then have b: "lower (strip (stdin demo_world (stdin_pos demo_world))) \<noteq> ''s''" by simp
  have old: "recent (load_state demo_world) =
     [demo_unit @ [''b.py''], demo_unit @ [''gone.py''], demo_unit @ [''a.py''],
      demo_unit @ [''tareas'', ''Aviso.py'']]"
    by (simp add: demo_world_def load_state_def)
  let ?r = "run_script (default_config ''/srv/app'') (demo_unit @ [''a.py'']) demo_world"
  from run_script_declined_changes_nothing [OF a b, of "demo_unit @ [''a.py'']"]
  have r: "?r = (Inr Cancelled, demo_world\<lparr>stdin_pos := Suc (Suc (stdin_pos demo_world))\<rparr>)"
    and k: "recent (load_state (snd ?r)) = recent (load_state demo_world)"
    by blast+
  from r have c: "fst ?r = Inr Cancelled" by (simp only: fst_conv)
  from k old have "recent (load_state (snd ?r)) =
     [demo_unit @ [''b.py''], demo_unit @ [''gone.py''], demo_unit @ [''a.py''],
      demo_unit @ [''tareas'', ''Aviso.py'']]"
    by (rule trans)
  with a n c show ?thesis by blast
qed

end
